theory Spec2Isabelle
  imports Complex_Main "HOL-Library.Log_Nat"
begin

section \<open>The streak calculator\<close>

text \<open>
  A contribution day as \<open>calculateStreak\<close> reads it. The source holds \<open>date\<close> as a string
  and only ever uses it through \<open>new Date(d.date)\<close>; the model keeps the time value that
  this construction yields (milliseconds since the epoch). \<open>contributionCount\<close> is a
  JavaScript number that the source only compares with zero.
\<close>

record ContributionDay =
  date :: int
  contributionCount :: int

text \<open>The object literal \<open>{ current: ..., max: ... }\<close>.\<close>

record StreakSummary =
  current :: int
  max_streak :: int

text \<open>
  What the function reads from its surroundings: the instant \<open>new Date()\<close> returns, and the
  effect of \<open>setHours(0, 0, 0, 0)\<close>, which maps a time value to the start of its local day
  and depends on the time zone of the host.
\<close>

record clock =
  now :: int
  startOfDay :: "int \<Rightarrow> int"

definition msPerDay :: int where
  "msPerDay = 1000 * 60 * 60 * 24"

text \<open>A host whose local time is UTC plus a constant number of milliseconds.\<close>

definition fixedOffsetClock :: "int \<Rightarrow> int \<Rightarrow> clock" where
  "fixedOffsetClock tz t =
     \<lparr> now = t, startOfDay = (\<lambda>x. ((x + tz) div msPerDay) * msPerDay - tz) \<rparr>"

text \<open>
  \<open>Math.floor((today - dayDate) / (1000 * 60 * 60 * 24))\<close> with \<open>dayDate\<close> the entry's
  date after \<open>setHours(0, 0, 0, 0)\<close>.
\<close>

definition daysDiff :: "clock \<Rightarrow> int \<Rightarrow> ContributionDay \<Rightarrow> int" where
  "daysDiff c today d = (today - startOfDay c (date d)) div msPerDay"

text \<open>
  The first loop, \<open>for (i = sortedDays.length - 1; i >= 0; i--)\<close>. The list argument is the
  part of \<open>sortedDays\<close> not yet visited, most recent entry first; the last argument is
  \<open>currentStreak\<close>. A \<open>break\<close> returns the counter as it stands.
\<close>

fun currentLoop :: "clock \<Rightarrow> int \<Rightarrow> ContributionDay list \<Rightarrow> int \<Rightarrow> int" where
  "currentLoop c today [] currentStreak = currentStreak"
| "currentLoop c today (d # ds) currentStreak =
     (if contributionCount d > 0 then
        (if daysDiff c today d \<le> currentStreak + 1
         then currentLoop c today ds (currentStreak + 1)
         else currentStreak)
      else if daysDiff c today d \<le> 1 then currentLoop c today ds currentStreak
      else currentStreak)"

text \<open>
  The second loop, forwards over \<open>sortedDays\<close>; the state is the pair
  \<open>(maxStreak, tempStreak)\<close>.
\<close>

fun maxLoop :: "ContributionDay list \<Rightarrow> int \<times> int \<Rightarrow> int \<times> int" where
  "maxLoop [] (maxStreak, tempStreak) = (maxStreak, tempStreak)"
| "maxLoop (d # ds) (maxStreak, tempStreak) =
     (if contributionCount d > 0
      then maxLoop ds (max maxStreak (tempStreak + 1), tempStreak + 1)
      else maxLoop ds (maxStreak, 0))"

text \<open>
  \<open>calculateStreak\<close>. \<open>Array.prototype.sort\<close> is stable and the comparator orders by
  ascending time value, which is \<open>sort_key date\<close>.
\<close>

definition calculateStreak :: "clock \<Rightarrow> ContributionDay list \<Rightarrow> StreakSummary" where
  "calculateStreak c contributionDays =
     (if length contributionDays = 0 then \<lparr> current = 0, max_streak = 0 \<rparr>
      else
        let sortedDays = sort_key date contributionDays;
            today = startOfDay c (now c)
        in \<lparr> current = currentLoop c today (rev sortedDays) 0,
             max_streak = fst (maxLoop sortedDays (0, 0)) \<rparr>)"

subsection \<open>Notions used to state the properties of the streak calculator\<close>

text \<open>
  The offset the loop computes for an entry: the value \<open>daysDiff\<close> takes there, where
  \<open>today\<close> is \<open>new Date()\<close> after \<open>setHours(0, 0, 0, 0)\<close>.
\<close>

definition dayOffset :: "clock \<Rightarrow> ContributionDay \<Rightarrow> int" where
  "dayOffset c d = daysDiff c (startOfDay c (now c)) d"

text \<open>
  The scan of the current streak as the specification words it, over the pairs
  (offset, count) of the entries from the most recent one backwards: a positive count
  extends the streak when the offset is at most the streak plus one and stops the scan
  otherwise; a zero count is passed over when the offset is at most one and stops the
  scan otherwise. The specification says nothing of negative counts.
\<close>

fun spec_current_scan :: "(int \<times> int) list \<Rightarrow> int \<Rightarrow> int" where
  "spec_current_scan [] streak = streak"
| "spec_current_scan ((offset, cnt) # rest) streak =
     (if cnt > 0 then
        (if offset \<le> streak + 1 then spec_current_scan rest (streak + 1) else streak)
      else if cnt = 0 then
        (if offset \<le> 1 then spec_current_scan rest streak else streak)
      else streak)"

text \<open>
  The whole-day offset of an entry from today, with the time of day dropped: the calendar
  day in which the instant \<open>t\<close> falls on a host whose local time is UTC plus \<open>tz\<close>
  milliseconds, minus the calendar day of the entry. An entry's date is a calendar date
  without a time component, held as midnight UTC of that day.
\<close>

definition wholeDayOffset :: "int \<Rightarrow> int \<Rightarrow> ContributionDay \<Rightarrow> int" where
  "wholeDayOffset tz t d = (t + tz) div msPerDay - date d div msPerDay"

text \<open>
  The number of times the first loop takes its \<open>continue\<close> branch: the same loop as
  \<open>currentLoop\<close>, counting the zero-count entries passed over.
\<close>

fun skippedLoop :: "clock \<Rightarrow> int \<Rightarrow> ContributionDay list \<Rightarrow> int \<Rightarrow> nat" where
  "skippedLoop c today [] currentStreak = 0"
| "skippedLoop c today (d # ds) currentStreak =
     (if contributionCount d > 0 then
        (if daysDiff c today d \<le> currentStreak + 1
         then skippedLoop c today ds (currentStreak + 1)
         else 0)
      else if daysDiff c today d \<le> 1 then Suc (skippedLoop c today ds currentStreak)
      else 0)"

definition skippedZeros :: "clock \<Rightarrow> ContributionDay list \<Rightarrow> nat" where
  "skippedZeros c contributionDays =
     skippedLoop c (startOfDay c (now c)) (rev (sort_key date contributionDays)) 0"

text \<open>
  The first loop once more, checking that the entries it counts are adjacent in the list:
  \<open>passed\<close> says that a zero-count entry has been passed over since the last entry
  counted, and counting a further entry after that, with the streak already begun, is the
  one thing ruled out.
\<close>

fun countsOneRun :: "clock \<Rightarrow> int \<Rightarrow> ContributionDay list \<Rightarrow> int \<Rightarrow> bool \<Rightarrow> bool" where
  "countsOneRun c today [] currentStreak passed = True"
| "countsOneRun c today (d # ds) currentStreak passed =
     (if contributionCount d > 0 then
        (if daysDiff c today d \<le> currentStreak + 1
         then \<not> (passed \<and> currentStreak > 0)
              \<and> countsOneRun c today ds (currentStreak + 1) False
         else True)
      else if daysDiff c today d \<le> 1 then countsOneRun c today ds currentStreak True
      else True)"

text \<open>
  \<open>current\<close> was computed from a streak actually present in the day set: the entries
  the backward scan counts are adjacent in the date-ascending list.
\<close>

definition streakPresent :: "clock \<Rightarrow> ContributionDay list \<Rightarrow> bool" where
  "streakPresent c contributionDays' =
     countsOneRun c (startOfDay c (now c)) (rev (sort_key date contributionDays')) 0 False"

subsection \<open>The array copy and the sort, on a store\<close>

text \<open>
  \<open>calculateStreak\<close> once more, with the arrays and the day objects on a store, to say what
  the call writes. An array is a list of references to day objects; \<open>nextAddr\<close> is the next
  unused address. \<open>[...contributionDays]\<close> allocates a new array holding the same
  references, and \<open>sort\<close> permutes that new array in place. The loops only read the day
  objects: each \<open>new Date(...)\<close> is a fresh object, and \<open>setHours\<close> is applied to it, not
  to the entry. Reading \<open>length\<close> of a missing array, or a property of a missing entry,
  throws.
\<close>

datatype js_error = TypeError | GraphQLError string | UserNotFound

record heap =
  arrays :: "nat \<rightharpoonup> nat list"
  dayObjects :: "nat \<rightharpoonup> ContributionDay"
  nextAddr :: nat

definition calculateStreakH ::
  "clock \<Rightarrow> heap \<Rightarrow> nat \<Rightarrow> js_error + (StreakSummary \<times> heap)" where
  "calculateStreakH c h contributionDays' =
     (case arrays h contributionDays' of
        None \<Rightarrow> Inl TypeError
      | Some refs \<Rightarrow>
          if length refs = 0 then Inr (\<lparr> current = 0, max_streak = 0 \<rparr>, h)
          else
            (case those (map (dayObjects h) refs) of
               None \<Rightarrow> Inl TypeError
             | Some ds \<Rightarrow>
                 let sortedDays = nextAddr h;
                     h1 = h\<lparr> arrays := (arrays h)(sortedDays \<mapsto> refs),
                             nextAddr := Suc (nextAddr h) \<rparr>;
                     h2 = h1\<lparr> arrays := (arrays h1)(sortedDays \<mapsto>
                             sort_key (\<lambda>r. date (the (dayObjects h1 r))) refs) \<rparr>;
                     sorted = map (\<lambda>r. the (dayObjects h2 r)) (the (arrays h2 sortedDays));
                     today = startOfDay c (now c)
                 in Inr (\<lparr> current = currentLoop c today (rev sorted) 0,
                           max_streak = fst (maxLoop sorted (0, 0)) \<rparr>, h2)))"

section \<open>The language ranking\<close>

text \<open>
  Of a repository record \<open>fetchLanguageData\<close> reads the primary language only, which the
  upstream API gives as a string or \<open>null\<close>.
\<close>

record repo =
  language :: "string option"

text \<open>
  An entry of the returned list. \<open>percentage\<close> is the decimal number that the string
  produced by \<open>toFixed(1)\<close> denotes.
\<close>

record languageShare =
  name :: string
  percentage :: rat

text \<open>
  JavaScript numbers are IEEE 754 doubles. \<open>toDouble x\<close> is the double nearest to the
  rational \<open>x\<close>, a tie going to the even significand: \<open>exponentOf\<close> is the exponent
  \<open>e\<close> with \<open>2^e \<le> x < 2^(e+1)\<close>, and the significand has 53 bits. Overflow and
  subnormal numbers are left out; the quotients and products below lie between
  \<open>1 / 2^53\<close> and 100.
\<close>

definition roundTiesToEven :: "rat \<Rightarrow> int" where
  "roundTiesToEven q =
     (let f = \<lfloor>q\<rfloor>; r = q - of_int f
      in if r < 1 / 2 then f else if 1 / 2 < r then f + 1 else if even f then f else f + 1)"

definition exponentOf :: "rat \<Rightarrow> int" where
  "exponentOf x = (if 1 \<le> x then bitlen \<lfloor>x\<rfloor> - 1 else - bitlen (\<lceil>1 / x\<rceil> - 1))"

definition toDouble :: "rat \<Rightarrow> rat" where
  "toDouble x =
     (if x = 0 then 0
      else
        let a = \<bar>x\<bar>;
            ulp = 2 powi (exponentOf a - 52)
        in sgn x * of_int (roundTiesToEven (a / ulp)) * ulp)"

text \<open>
  \<open>x.toFixed(1)\<close>, as the decimal number the returned string denotes: the integer \<open>n\<close>
  for which \<open>n / 10\<close> is closest to the exact value of the double \<open>x\<close>, the larger
  one in a tie.
\<close>

definition toFixed1 :: "rat \<Rightarrow> rat" where
  "toFixed1 x = of_int \<lfloor>x * 10 + 1 / 2\<rfloor> / 10"

text \<open>
  \<open>languageCounts[l] = (languageCounts[l] || 0) + 1\<close> on an object whose own properties
  are kept as an association list in insertion order, the order \<open>Object.entries\<close> lists
  them in. This is what the object does for the keys that are \<open>plainKey\<close>s (below):
  a name of a member of \<open>Object.prototype\<close> reads as that member before it is ever
  written, and keys made of digits are listed first, in numeric order.
\<close>

fun bumpLanguage :: "(string \<times> int) list \<Rightarrow> string \<Rightarrow> (string \<times> int) list" where
  "bumpLanguage [] l = [(l, 0 + 1)]"
| "bumpLanguage ((k, n) # languageCounts) l =
     (if k = l then (k, (if n \<noteq> 0 then n else 0) + 1) # languageCounts
      else (k, n) # bumpLanguage languageCounts l)"

text \<open>The loop \<open>for (const repo of repos)\<close>; a language that is \<open>null\<close> or empty is falsy.\<close>

fun countLanguages :: "repo list \<Rightarrow> (string \<times> int) list \<Rightarrow> (string \<times> int) list" where
  "countLanguages [] languageCounts = languageCounts"
| "countLanguages (r # repos) languageCounts =
     (case language r of
        None \<Rightarrow> countLanguages repos languageCounts
      | Some l \<Rightarrow>
          if l \<noteq> [] then countLanguages repos (bumpLanguage languageCounts l)
          else countLanguages repos languageCounts)"

text \<open>
  The rest of \<open>fetchLanguageData\<close>. The comparator \<open>(a, b) => b[1] - a[1]\<close> orders by
  descending count, and the sort is stable: \<open>sort_key\<close> on the negated count. The
  quotient \<open>lang.count / total\<close> and its product with 100 are each rounded to a double.
\<close>

definition fetchLanguageData :: "repo list \<Rightarrow> languageShare list" where
  "fetchLanguageData repos =
     (let languageCounts = countLanguages repos [];
          sortedLanguages = take 5 (sort_key (\<lambda>(l, cnt). - cnt) languageCounts)
      in if length sortedLanguages = 0 then []
         else
           let total = foldl (\<lambda>sum lang. sum + snd lang) 0 sortedLanguages
           in map (\<lambda>(l, cnt).
                \<lparr> name = l,
                  percentage = (if total > 0
                                then toFixed1 (toDouble (toDouble (of_int cnt / of_int total) * 100))
                                else 0) \<rparr>) sortedLanguages)"

subsection \<open>The ranking as the specification words it\<close>

definition hasLanguage :: "repo \<Rightarrow> bool" where
  "hasLanguage r = (case language r of None \<Rightarrow> False | Some l \<Rightarrow> l \<noteq> [])"

definition primaryLanguages :: "repo list \<Rightarrow> string list" where
  "primaryLanguages repos = map (\<lambda>r. the (language r)) (filter hasLanguage repos)"

text \<open>The distinct elements of a list in the order of their first occurrence.\<close>

fun encounterOrder :: "string list \<Rightarrow> string list" where
  "encounterOrder [] = []"
| "encounterOrder (l # ls) = l # filter (\<lambda>k. k \<noteq> l) (encounterOrder ls)"

text \<open>
  The five languages kept, with their counts: group the repositories that have a primary
  language by it, in encounter order; count each group; sort by descending count, stably;
  keep five.
\<close>

definition spec_top5 :: "repo list \<Rightarrow> (string \<times> int) list" where
  "spec_top5 repos =
     (let langs = primaryLanguages repos;
          counts = map (\<lambda>l. (l, int (count_list langs l))) (encounterOrder langs)
      in take 5 (sort_key (\<lambda>(l, cnt). - cnt) counts))"

text \<open>
  The keys for which a plain object behaves as an insertion-ordered table of its own
  properties: not the name of a member of \<open>Object.prototype\<close>, and not made of digits
  only.
\<close>

definition objectPrototypeMembers :: "string list" where
  "objectPrototypeMembers =
     [''constructor'', ''__defineGetter__'', ''__defineSetter__'', ''hasOwnProperty'',
      ''__lookupGetter__'', ''__lookupSetter__'', ''isPrototypeOf'', ''propertyIsEnumerable'',
      ''toString'', ''valueOf'', ''__proto__'', ''toLocaleString'']"

definition plainKey :: "string \<Rightarrow> bool" where
  "plainKey l = (l \<notin> set objectPrototypeMembers \<and> (\<exists>ch \<in> set l. ch \<notin> set ''0123456789''))"

section \<open>The aggregator\<close>

text \<open>
  The sub-results reach the aggregator as untyped JavaScript values; what the aggregator
  does with them depends on which values are falsy and which have no properties to read.
  Numbers are restricted to integers.
\<close>

datatype jsval =
    JUndefined
  | JNull
  | JBool bool
  | JNum int
  | JStr string
  | JArr "jsval list"
  | JObj "(string \<times> jsval) list"

fun truthy :: "jsval \<Rightarrow> bool" where
  "truthy JUndefined = False"
| "truthy JNull = False"
| "truthy (JBool b) = b"
| "truthy (JNum n) = (n \<noteq> 0)"
| "truthy (JStr s) = (s \<noteq> [])"
| "truthy (JArr xs) = True"
| "truthy (JObj kvs) = True"

text \<open>\<open>a || b\<close>.\<close>

definition jsOr :: "jsval \<Rightarrow> jsval \<Rightarrow> jsval" where
  "jsOr a b = (if truthy a then a else b)"

text \<open>
  \<open>v.k\<close>: reading a property of \<open>undefined\<close> or \<open>null\<close> throws a \<open>TypeError\<close>; an object
  gives the property's value or \<open>undefined\<close>; a primitive or an array has none of the
  properties read here.
\<close>

fun getProp :: "jsval \<Rightarrow> string \<Rightarrow> js_error + jsval" where
  "getProp JUndefined k = Inl TypeError"
| "getProp JNull k = Inl TypeError"
| "getProp (JObj kvs) k = Inr (case map_of kvs k of None \<Rightarrow> JUndefined | Some v \<Rightarrow> v)"
| "getProp (JBool b) k = Inr JUndefined"
| "getProp (JNum n) k = Inr JUndefined"
| "getProp (JStr s) k = Inr JUndefined"
| "getProp (JArr xs) k = Inr JUndefined"

text \<open>Sequencing of computations that may throw.\<close>

definition bindE :: "'e + 'a \<Rightarrow> ('a \<Rightarrow> 'e + 'b) \<Rightarrow> 'e + 'b" where
  "bindE r f = (case r of Inl e \<Rightarrow> Inl e | Inr v \<Rightarrow> f v)"

record StatsSummary =
  username :: string
  followers :: jsval
  following :: jsval
  publicRepos :: jsval
  totalStars :: jsval
  totalForks :: jsval
  totalIssues :: jsval
  totalPRs :: jsval
  totalCommits :: jsval
  contributionStreak :: jsval
  contributionDays :: jsval
  languages :: jsval
  fetchedAt :: string

text \<open>
  \<open>fetchGitHubStats\<close> from the point where the four fetches have resolved: the arguments
  are the four resolved values and the string \<open>new Date().toISOString()\<close> returns. The
  object literal evaluates its properties in order; the \<open>catch\<close> block logs and rethrows,
  so an exception is the result of the call.
\<close>

definition fetchGitHubStats ::
  "string \<Rightarrow> jsval \<Rightarrow> jsval \<Rightarrow> jsval \<Rightarrow> jsval \<Rightarrow> string \<Rightarrow> js_error + StatsSummary" where
  "fetchGitHubStats username' userStats repoStats contributionStats languageStats isoNow =
     bindE (getProp userStats ''followers'') (\<lambda>v1.
     bindE (getProp userStats ''following'') (\<lambda>v2.
     bindE (getProp userStats ''public_repos'') (\<lambda>v3.
     bindE (getProp repoStats ''totalStars'') (\<lambda>v4.
     bindE (getProp repoStats ''totalForks'') (\<lambda>v5.
     bindE (getProp contributionStats ''totalIssues'') (\<lambda>v6.
     bindE (getProp contributionStats ''totalPRs'') (\<lambda>v7.
     bindE (getProp contributionStats ''totalCommits'') (\<lambda>v8.
     bindE (getProp contributionStats ''streak'') (\<lambda>v9.
     bindE (getProp contributionStats ''contributionDays'') (\<lambda>v10.
       Inr \<lparr> username = username',
             followers = jsOr v1 (JNum 0),
             following = jsOr v2 (JNum 0),
             publicRepos = jsOr v3 (JNum 0),
             totalStars = jsOr v4 (JNum 0),
             totalForks = jsOr v5 (JNum 0),
             totalIssues = jsOr v6 (JNum 0),
             totalPRs = jsOr v7 (JNum 0),
             totalCommits = jsOr v8 (JNum 0),
             contributionStreak = jsOr v9 (JObj [(''current'', JNum 0), (''max'', JNum 0)]),
             contributionDays = jsOr v10 (JArr []),
             languages = jsOr languageStats (JArr []),
             fetchedAt = isoNow \<rparr>))))))))))"

subsection \<open>The contribution sub-result\<close>

record contributionsCollection =
  totalCommitContributions :: int
  totalIssueContributions :: int
  totalPullRequestContributions :: int
  totalPullRequestReviewContributions :: int
  weeks :: "ContributionDay list list"

text \<open>
  The parsed GraphQL response, by the branches \<open>fetchContributionData\<close> takes on it:
  \<open>data.errors\<close> present, \<open>data.data\<close> or \<open>data.data.user\<close> missing, or the user's
  contributions collection.
\<close>

datatype graphql_response =
    Errors "string list"
  | NoUser
  | UserData contributionsCollection

text \<open>
  The day objects and the streak summary as JavaScript values. A day's \<open>date\<close> stands for
  the date string, as in \<open>ContributionDay\<close>.
\<close>

definition dayJS :: "ContributionDay \<Rightarrow> jsval" where
  "dayJS d = JObj [(''contributionCount'', JNum (contributionCount d)), (''date'', JNum (date d))]"

definition streakJS :: "StreakSummary \<Rightarrow> jsval" where
  "streakJS s = JObj [(''current'', JNum (current s)), (''max'', JNum (max_streak s))]"

fun fetchContributionData :: "clock \<Rightarrow> graphql_response \<Rightarrow> js_error + jsval" where
  "fetchContributionData c (Errors []) = Inl TypeError"
| "fetchContributionData c (Errors (message # es)) = Inl (GraphQLError message)"
| "fetchContributionData c NoUser = Inl UserNotFound"
| "fetchContributionData c (UserData contributions) =
     (let allDays = concat (weeks contributions);
          streak = calculateStreak c allDays
      in Inr (JObj
           [(''totalCommits'', JNum (totalCommitContributions contributions)),
            (''totalIssues'', JNum (totalIssueContributions contributions)),
            (''totalPRs'', JNum (totalPullRequestContributions contributions
                                 + totalPullRequestReviewContributions contributions)),
            (''streak'', streakJS streak),
            (''contributionDays'', JArr (map dayJS allDays))]))"

subsection \<open>Notions used to state the properties of the aggregator\<close>

definition nullish :: "jsval \<Rightarrow> bool" where
  "nullish v = (v = JUndefined \<or> v = JNull)"

definition missingOrFalsy :: "jsval \<Rightarrow> string \<Rightarrow> bool" where
  "missingOrFalsy obj k = (case getProp obj k of Inl e \<Rightarrow> False | Inr v \<Rightarrow> \<not> truthy v)"

section \<open>Properties of the two loops\<close>

subsection \<open>Offsets on a host with a constant UTC offset\<close>

text \<open>
  With a constant UTC offset the offset of an entry is the difference of the local day
  numbers of now and of the entry's date: the time of day is dropped on both sides.
\<close>

lemma dayOffset_fixedOffsetClock:
  "dayOffset (fixedOffsetClock tz t) d = (t + tz) div msPerDay - (date d + tz) div msPerDay"
proof -
  have "((t + tz) div msPerDay * msPerDay - tz - ((date d + tz) div msPerDay * msPerDay - tz))
        = ((t + tz) div msPerDay - (date d + tz) div msPerDay) * msPerDay"
    by (simp add: algebra_simps)
  moreover have "msPerDay \<noteq> 0" by (simp add: msPerDay_def)
  ultimately show ?thesis
    by (simp add: dayOffset_def daysDiff_def fixedOffsetClock_def)
qed

text \<open>
  A date string without a time of day is read as midnight UTC of that date, day \<open>k\<close>. On
  a host at or east of UTC its offset is the local day number of now minus \<open>k\<close>; on a host
  west of UTC midnight UTC falls on the evening before, and the offset is one more.
\<close>

lemma dayOffset_utc_midnight:
  "date d = k * msPerDay \<Longrightarrow> - msPerDay \<le> tz \<Longrightarrow> tz < msPerDay \<Longrightarrow>
   dayOffset (fixedOffsetClock tz t) d
     = (t + tz) div msPerDay - k + (if tz < 0 then 1 else 0)"
proof -
  assume d: "date d = k * msPerDay" and lo: "- msPerDay \<le> tz" and hi: "tz < msPerDay"
  have pos: "0 < msPerDay" by (simp add: msPerDay_def)
  have "(k * msPerDay + tz) div msPerDay = k + tz div msPerDay"
    using pos by simp
  moreover have "tz div msPerDay = (if tz < 0 then - 1 else 0)"
  proof (cases "tz < 0")
    case True
    have "(tz + msPerDay) div msPerDay = 0" using True lo by (intro div_pos_pos_trivial) auto
    then have "tz div msPerDay + 1 = 0" using pos by simp
    with True show ?thesis by simp
  next
    case False
    then show ?thesis using hi by simp
  qed
  ultimately show ?thesis by (simp add: dayOffset_fixedOffsetClock d)
qed

subsection \<open>The backward loop\<close>

lemma currentLoop_spec:
  "\<forall>d \<in> set ds. 0 \<le> contributionCount d \<Longrightarrow>
   currentLoop c (startOfDay c (now c)) ds n =
   spec_current_scan (map (\<lambda>d. (dayOffset c d, contributionCount d)) ds) n"
  by (induction ds arbitrary: n) (auto simp: dayOffset_def)

lemma currentLoop_lower: "n \<le> currentLoop c today ds n"
proof (induction ds arbitrary: n)
  case Nil
  show ?case by simp
next
  case (Cons d ds)
  have "n + 1 \<le> currentLoop c today ds (n + 1)" by (rule Cons.IH)
  moreover have "n \<le> currentLoop c today ds n" by (rule Cons.IH)
  ultimately show ?case by simp
qed

lemma currentLoop_upper:
  "currentLoop c today ds n \<le> n + int (length (filter (\<lambda>d. contributionCount d > 0) ds))"
proof (induction ds arbitrary: n)
  case Nil
  show ?case by simp
next
  case (Cons d ds)
  have a: "currentLoop c today ds (n + 1) \<le> n + 1 + int (length (filter (\<lambda>d. contributionCount d > 0) ds))"
    by (rule Cons.IH)
  have b: "currentLoop c today ds n \<le> n + int (length (filter (\<lambda>d. contributionCount d > 0) ds))"
    by (rule Cons.IH)
  from a b show ?case by simp
qed

lemma skippedLoop_upper:
  "skippedLoop c today ds n \<le> length (filter (\<lambda>d. \<not> contributionCount d > 0) ds)"
  by (induction ds arbitrary: n) auto






subsection \<open>The backward loop against whole-day offsets\<close>

text \<open>
  For dates held as midnight UTC, on a host at a constant offset from UTC: at or east of
  UTC the offset the loop computes is the whole-day offset, and \<open>current\<close> is the result
  of the scan the specification describes; west of UTC every offset is one more.
\<close>

lemma dayOffset_east_of_utc:
  "msPerDay dvd date d \<Longrightarrow> 0 \<le> tz \<Longrightarrow> tz < msPerDay \<Longrightarrow>
   dayOffset (fixedOffsetClock tz t) d = wholeDayOffset tz t d"
proof -
  assume dv: "msPerDay dvd date d" and tz: "0 \<le> tz" "tz < msPerDay"
  have "date d = date d div msPerDay * msPerDay" using dv by simp
  moreover have "- msPerDay \<le> tz" using tz by (simp add: msPerDay_def)
  ultimately have "dayOffset (fixedOffsetClock tz t) d
      = (t + tz) div msPerDay - date d div msPerDay + (if tz < 0 then 1 else 0)"
    using tz(2) by (rule dayOffset_utc_midnight)
  with tz(1) show ?thesis by (simp add: wholeDayOffset_def)
qed

lemma dayOffset_west_of_utc:
  "msPerDay dvd date d \<Longrightarrow> - msPerDay \<le> tz \<Longrightarrow> tz < 0 \<Longrightarrow>
   dayOffset (fixedOffsetClock tz t) d = wholeDayOffset tz t d + 1"
proof -
  assume dv: "msPerDay dvd date d" and tz: "- msPerDay \<le> tz" "tz < 0"
  have "date d = date d div msPerDay * msPerDay" using dv by simp
  moreover have "tz < msPerDay" using tz by (simp add: msPerDay_def)
  ultimately have "dayOffset (fixedOffsetClock tz t) d
      = (t + tz) div msPerDay - date d div msPerDay + (if tz < 0 then 1 else 0)"
    using tz(1) by (intro dayOffset_utc_midnight)
  with tz(2) show ?thesis by (simp add: wholeDayOffset_def)
qed

lemma current_rule_east_of_utc:
  assumes "0 \<le> tz" "tz < msPerDay"
    and "\<forall>d \<in> set days. msPerDay dvd date d \<and> 0 \<le> contributionCount d"
  shows "current (calculateStreak (fixedOffsetClock tz t) days) =
     spec_current_scan
       (map (\<lambda>d. (wholeDayOffset tz t d, contributionCount d)) (rev (sort_key date days))) 0"
proof -
  let ?c = "fixedOffsetClock tz t"
  let ?xs = "rev (sort_key date days)"
  have cur: "current (calculateStreak ?c days) = currentLoop ?c (startOfDay ?c (now ?c)) ?xs 0"
    by (cases "days = []") (simp_all add: calculateStreak_def Let_def)
  have "\<forall>d \<in> set ?xs. 0 \<le> contributionCount d" using assms(3) by simp
  then have "currentLoop ?c (startOfDay ?c (now ?c)) ?xs 0
      = spec_current_scan (map (\<lambda>d. (dayOffset ?c d, contributionCount d)) ?xs) 0"
    by (rule currentLoop_spec)
  moreover have "map (\<lambda>d. (dayOffset ?c d, contributionCount d)) ?xs
      = map (\<lambda>d. (wholeDayOffset tz t d, contributionCount d)) ?xs"
    using assms by (intro map_cong) (auto simp: dayOffset_east_of_utc)
  ultimately show ?thesis using cur by simp
qed

lemma current_rule_west_of_utc:
  assumes "- msPerDay \<le> tz" "tz < 0"
    and "\<forall>d \<in> set days. msPerDay dvd date d \<and> 0 \<le> contributionCount d"
  shows "current (calculateStreak (fixedOffsetClock tz t) days) =
     spec_current_scan
       (map (\<lambda>d. (wholeDayOffset tz t d + 1, contributionCount d)) (rev (sort_key date days))) 0"
proof -
  let ?c = "fixedOffsetClock tz t"
  let ?xs = "rev (sort_key date days)"
  have cur: "current (calculateStreak ?c days) = currentLoop ?c (startOfDay ?c (now ?c)) ?xs 0"
    by (cases "days = []") (simp_all add: calculateStreak_def Let_def)
  have "\<forall>d \<in> set ?xs. 0 \<le> contributionCount d" using assms(3) by simp
  then have "currentLoop ?c (startOfDay ?c (now ?c)) ?xs 0
      = spec_current_scan (map (\<lambda>d. (dayOffset ?c d, contributionCount d)) ?xs) 0"
    by (rule currentLoop_spec)
  moreover have "map (\<lambda>d. (dayOffset ?c d, contributionCount d)) ?xs
      = map (\<lambda>d. (wholeDayOffset tz t d + 1, contributionCount d)) ?xs"
    using assms by (intro map_cong) (auto simp: dayOffset_west_of_utc)
  ultimately show ?thesis using cur by simp
qed

subsection \<open>The forward loop\<close>


lemma maxLoop_lower: "m \<le> fst (maxLoop xs (m, t))"
proof (induction xs arbitrary: m t)
  case Nil
  show ?case by simp
next
  case (Cons d ds)
  have "max m (t + 1) \<le> fst (maxLoop ds (max m (t + 1), t + 1))" by (rule Cons.IH)
  moreover have "m \<le> fst (maxLoop ds (m, 0))" by (rule Cons.IH)
  ultimately show ?case by simp
qed

lemma maxLoop_upper:
  "0 \<le> t \<Longrightarrow>
   fst (maxLoop xs (m, t)) \<le> max m (t + int (length (filter (\<lambda>d. contributionCount d > 0) xs)))"
proof (induction xs arbitrary: m t)
  case Nil
  show ?case by simp
next
  case (Cons d ds)
  have a: "fst (maxLoop ds (max m (t + 1), t + 1))
      \<le> max (max m (t + 1)) (t + 1 + int (length (filter (\<lambda>d. contributionCount d > 0) ds)))"
    using Cons.prems by (intro Cons.IH) simp
  have b: "fst (maxLoop ds (m, 0)) \<le> max m (0 + int (length (filter (\<lambda>d. contributionCount d > 0) ds)))"
    by (intro Cons.IH) simp
  from a b Cons.prems show ?case by auto
qed







subsection \<open>Sorting keeps the number of entries that satisfy a predicate\<close>

lemma count_positive_sorted:
  "length (filter P (rev (sort_key f xs))) = length (filter P xs)"
proof -
  have "filter P (rev (sort_key f xs)) = rev (filter P (sort_key f xs))"
    by (simp only: rev_filter)
  then show ?thesis by (simp add: filter_sort)
qed

lemma count_positive_sorted':
  "length (filter P (sort_key f xs)) = length (filter P xs)"
  by (simp add: filter_sort)

subsection \<open>Runs of a given length\<close>


section \<open>Properties of the store version\<close>

lemma those_map_Some:
  "set refs \<subseteq> dom m \<Longrightarrow> those (map m refs) = Some (map (\<lambda>r. the (m r)) refs)"
  by (induction refs) auto

lemma sort_key_map: "map f (sort_key (\<lambda>r. g (f r)) xs) = sort_key g (map f xs)"
proof (induction xs)
  case Nil
  show ?case by simp
next
  case (Cons x xs)
  have ins: "map f (insort_key (\<lambda>r. g (f r)) x ys) = insort_key g (f x) (map f ys)" for ys
    by (induction ys) auto
  show ?case by (simp add: ins Cons.IH)
qed

section \<open>Properties of the double arithmetic\<close>

text \<open>
  \<open>exponentOf\<close> is the binary exponent, so \<open>toDouble\<close> is within half a unit in the
  last place, a relative error of at most \<open>1 / 2^53\<close>; \<open>toFixed1\<close> is within a
  twentieth. The percentage printed for a share \<open>s\<close> is therefore within
  \<open>0.05 + 10^-12\<close> of \<open>100 * s\<close>.
\<close>

lemma roundTiesToEven_error: "\<bar>of_int (roundTiesToEven q) - q\<bar> \<le> 1 / 2"
proof -
  have "of_int \<lfloor>q\<rfloor> \<le> q" "q < of_int \<lfloor>q\<rfloor> + 1" by linarith+
  then show ?thesis by (auto simp: roundTiesToEven_def Let_def)
qed

lemma exponentOf_bounds:
  assumes "0 < x"
  shows "2 powi exponentOf x \<le> x" and "x < 2 powi (exponentOf x + 1)"
proof -
  have "2 powi exponentOf x \<le> x \<and> x < 2 powi (exponentOf x + 1)"
  proof (cases "1 \<le> x")
    case True
    let ?n = "\<lfloor>x\<rfloor>"
    have n: "0 < ?n" using True by simp
    have b: "2 ^ nat (bitlen ?n - 1) \<le> ?n" "?n < 2 ^ nat (bitlen ?n)"
      using bitlen_bounds[OF n] by auto
    have ge1: "1 \<le> bitlen ?n" using n by (auto simp: bitlen_alt_def)
    have e: "exponentOf x = bitlen ?n - 1" using True by (simp add: exponentOf_def)
    have "(2 :: rat) powi (bitlen ?n - 1) = of_int (2 ^ nat (bitlen ?n - 1))"
      using ge1 by (simp add: power_int_def)
    also have "\<dots> \<le> of_int ?n" using b(1) by (simp only: of_int_le_iff)
    also have "\<dots> \<le> x" by simp
    finally have lo: "2 powi exponentOf x \<le> x" by (simp add: e)
    have "?n + 1 \<le> 2 ^ nat (bitlen ?n)" using b(2) by simp
    then have "(of_int (?n + 1) :: rat) \<le> of_int (2 ^ nat (bitlen ?n))"
      by (simp only: of_int_le_iff)
    moreover have "x < of_int (?n + 1)" by simp linarith
    moreover have "(2 :: rat) powi (bitlen ?n - 1 + 1) = of_int (2 ^ nat (bitlen ?n))"
      using ge1 by (simp add: power_int_def)
    ultimately have "x < 2 powi (exponentOf x + 1)" by (simp add: e)
    with lo show ?thesis ..
  next
    case False
    let ?m = "\<lceil>1 / x\<rceil> - 1"
    have x1: "1 < 1 / x" using False assms by simp
    then have "2 \<le> \<lceil>1 / x\<rceil>" by linarith
    then have m: "0 < ?m" by simp
    have b: "2 ^ nat (bitlen ?m - 1) \<le> ?m" "?m < 2 ^ nat (bitlen ?m)"
      using bitlen_bounds[OF m] by auto
    have ge1: "1 \<le> bitlen ?m" using m by (auto simp: bitlen_alt_def)
    have e: "exponentOf x = - bitlen ?m" using False by (simp add: exponentOf_def)
    have p: "(2 :: rat) powi (- bitlen ?m) = 1 / of_int (2 ^ nat (bitlen ?m))"
      using ge1 by (simp add: power_int_def field_simps)
    have "\<lceil>1 / x\<rceil> \<le> 2 ^ nat (bitlen ?m)" using b(2) by simp
    then have "(of_int \<lceil>1 / x\<rceil> :: rat) \<le> of_int (2 ^ nat (bitlen ?m))"
      by (simp only: of_int_le_iff)
    moreover have "1 / x \<le> of_int \<lceil>1 / x\<rceil>" by simp
    ultimately have "1 / x \<le> of_int (2 ^ nat (bitlen ?m))" by linarith
    then have lo: "2 powi exponentOf x \<le> x"
      using assms unfolding e p by (simp add: field_simps)
    have p2: "(2 :: rat) powi (- bitlen ?m + 1) = 1 / of_int (2 ^ nat (bitlen ?m - 1))"
      using ge1 by (simp add: power_int_def field_simps nat_diff_distrib flip: power_Suc)
    have "(of_int (2 ^ nat (bitlen ?m - 1)) :: rat) \<le> of_int ?m"
      using b(1) by (simp only: of_int_le_iff)
    moreover have "of_int ?m < 1 / x" by simp linarith
    ultimately have "(of_int (2 ^ nat (bitlen ?m - 1)) :: rat) < 1 / x" by linarith
    then have "x < 2 powi (exponentOf x + 1)"
      using assms unfolding e p2 by (simp add: field_simps)
    with lo show ?thesis ..
  qed
  then show "2 powi exponentOf x \<le> x" and "x < 2 powi (exponentOf x + 1)" by simp_all
qed

lemma toDouble_error:
  assumes "0 < x"
  shows "\<bar>toDouble x - x\<bar> \<le> x / 2 ^ 53"
proof -
  let ?e = "exponentOf x"
  let ?u = "(2 :: rat) powi (?e - 52)"
  have u: "0 < ?u" by simp
  have td: "toDouble x = of_int (roundTiesToEven (x / ?u)) * ?u"
    using assms by (simp add: toDouble_def Let_def)
  have "\<bar>of_int (roundTiesToEven (x / ?u)) - x / ?u\<bar> \<le> 1 / 2"
    by (rule roundTiesToEven_error)
  then have "\<bar>of_int (roundTiesToEven (x / ?u)) - x / ?u\<bar> * ?u \<le> 1 / 2 * ?u"
    using u by (intro mult_right_mono) simp_all
  moreover have "\<bar>of_int (roundTiesToEven (x / ?u)) - x / ?u\<bar> * ?u
      = \<bar>of_int (roundTiesToEven (x / ?u)) * ?u - x\<bar>"
  proof -
    have "\<bar>of_int (roundTiesToEven (x / ?u)) - x / ?u\<bar> * ?u
        = \<bar>(of_int (roundTiesToEven (x / ?u)) - x / ?u) * ?u\<bar>"
      using u by (simp add: abs_mult)
    also have "(of_int (roundTiesToEven (x / ?u)) - x / ?u) * ?u
        = of_int (roundTiesToEven (x / ?u)) * ?u - x"
      using u by (simp add: field_simps)
    finally show ?thesis .
  qed
  ultimately have a: "\<bar>toDouble x - x\<bar> \<le> ?u / 2" by (simp add: td)
  have "?u / 2 = 2 powi ?e / 2 ^ 53"
    by (simp add: power_int_diff)
  also have "\<dots> \<le> x / 2 ^ 53"
    using exponentOf_bounds(1)[OF assms] by (simp add: divide_right_mono)
  finally show ?thesis using a by linarith
qed

lemma toFixed1_error: "\<bar>toFixed1 x - x\<bar> \<le> 1 / 20"
proof -
  define n where "n = \<lfloor>x * 10 + 1 / 2\<rfloor>"
  have "of_int n \<le> x * 10 + 1 / 2" "x * 10 + 1 / 2 < of_int n + 1"
    unfolding n_def by linarith+
  then have "of_int n / 10 - x \<le> 1 / 20" "- (1 / 20) \<le> of_int n / 10 - x" by linarith+
  then have "\<bar>of_int n / 10 - x\<bar> \<le> 1 / 20" by linarith
  then show ?thesis by (simp only: toFixed1_def n_def)
qed

lemma toFixed1_tenths: "\<exists>n :: int. toFixed1 x = of_int n / 10"
  by (auto simp: toFixed1_def)

lemma percentage_error:
  assumes "0 < s" "s \<le> 1"
  shows "\<bar>toFixed1 (toDouble (toDouble s * 100)) - 100 * s\<bar> \<le> 1 / 20 + 1 / 10 ^ 12"
proof -
  define a where "a = toDouble s"
  define b where "b = toDouble (a * 100)"
  define p where "p = toFixed1 b"
  have "\<bar>a - s\<bar> \<le> s / 2 ^ 53" unfolding a_def using assms(1) by (rule toDouble_error)
  then have ea: "a - s \<le> s / 2 ^ 53" "s - a \<le> s / 2 ^ 53" by linarith+
  have "s / 2 ^ 53 < s" using assms(1) by simp
  with ea have apos: "0 < a" by linarith
  have "\<bar>b - a * 100\<bar> \<le> a * 100 / 2 ^ 53"
    unfolding b_def using apos by (intro toDouble_error) simp
  then have eb: "b - a * 100 \<le> a * 100 / 2 ^ 53" "a * 100 - b \<le> a * 100 / 2 ^ 53"
    by linarith+
  have "\<bar>p - b\<bar> \<le> 1 / 20" unfolding p_def by (rule toFixed1_error)
  then have ep: "p - b \<le> 1 / 20" "b - p \<le> 1 / 20" by linarith+
  have up: "p - 100 * s \<le> 1 / 20 + 1 / 10 ^ 12"
    using ea eb ep assms by simp
  have lo: "100 * s - p \<le> 1 / 20 + 1 / 10 ^ 12"
    using ea eb ep assms by simp
  from up lo have "\<bar>p - 100 * s\<bar> \<le> 1 / 20 + 1 / 10 ^ 12" by linarith
  then show ?thesis by (simp only: p_def b_def a_def)
qed

text \<open>The shares of the example, and a share that is an exact tie in decimal.\<close>

lemma example_shares:
  "toFixed1 (toDouble (toDouble (5 / 13) * 100)) = 385 / 10"
  "toFixed1 (toDouble (toDouble (3 / 13) * 100)) = 231 / 10"
  "toFixed1 (toDouble (toDouble (1 / 13) * 100)) = 77 / 10"
  by code_simp+

lemma double_rounding_tie:
  "toDouble (toDouble (23 / 80) * 100) = 8092405580431359 / 281474976710656"
  "toFixed1 (toDouble (toDouble (23 / 80) * 100)) = 287 / 10"
  "toFixed1 (100 * (23 / 80)) = 288 / 10"
  by code_simp+

section \<open>Properties of the language count\<close>

lemma set_encounterOrder: "set (encounterOrder ls) = set ls"
  by (induction ls) auto

lemma distinct_encounterOrder: "distinct (encounterOrder ls)"
  by (induction ls) (auto simp: set_encounterOrder)

lemma filter_encounterOrder: "filter P (encounterOrder ls) = encounterOrder (filter P ls)"
proof (induction ls)
  case Nil
  show ?case by simp
next
  case (Cons l ls)
  show ?case
  proof (cases "P l")
    case True
    have "filter P (filter (\<lambda>k. k \<noteq> l) (encounterOrder ls))
        = filter (\<lambda>k. k \<noteq> l) (filter P (encounterOrder ls))"
      by (simp add: conj_commute)
    with True Cons.IH show ?thesis by simp
  next
    case False
    have "filter P (filter (\<lambda>k. k \<noteq> l) (encounterOrder ls))
        = filter (\<lambda>k. k \<noteq> l) (filter P (encounterOrder ls))"
      by (simp add: conj_commute)
    also have "\<dots> = filter (\<lambda>k. k \<noteq> l) (encounterOrder (filter P ls))"
      by (simp only: Cons.IH)
    also have "\<dots> = encounterOrder (filter P ls)"
      using False by (intro filter_True) (auto simp: set_encounterOrder)
    finally show ?thesis using False by simp
  qed
qed

lemma countLanguages_foldl:
  "countLanguages repos lc = foldl bumpLanguage lc (primaryLanguages repos)"
  by (induction repos arbitrary: lc)
     (auto simp: primaryLanguages_def hasLanguage_def split: option.splits)

lemma bumpLanguage_new:
  "l \<notin> fst ` set lc \<Longrightarrow> bumpLanguage lc l = lc @ [(l, 1)]"
  by (induction lc l rule: bumpLanguage.induct) auto

lemma bumpLanguage_old:
  "l \<in> fst ` set lc \<Longrightarrow> distinct (map fst lc) \<Longrightarrow>
   bumpLanguage lc l = map (\<lambda>(k, n). (k, if k = l then (if n \<noteq> 0 then n else 0) + 1 else n)) lc"
proof (induction lc l rule: bumpLanguage.induct)
  case (1 l)
  then show ?case by simp
next
  case (2 k n languageCounts l)
  show ?case
  proof (cases "k = l")
    case True
    then have "l \<notin> fst ` set languageCounts" using 2(3) by auto
    then have "map (\<lambda>(k, n). (k, if k = l then (if n \<noteq> 0 then n else 0) + 1 else n)) languageCounts
        = languageCounts"
      by (intro map_idI) (auto simp: image_iff)
    with True show ?thesis by simp
  next
    case False
    with 2 show ?thesis by auto
  qed
qed

lemma foldl_bumpLanguage:
  "distinct (map fst lc) \<Longrightarrow> \<forall>n \<in> snd ` set lc. 0 < n \<Longrightarrow>
   foldl bumpLanguage lc ls =
     map (\<lambda>(k, n). (k, n + int (count_list ls k))) lc
     @ map (\<lambda>l. (l, int (count_list ls l)))
         (encounterOrder (filter (\<lambda>l. l \<notin> fst ` set lc) ls))"
proof (induction ls arbitrary: lc)
  case Nil
  show ?case by simp
next
  case (Cons l ls)
  show ?case
  proof (cases "l \<in> fst ` set lc")
    case True
    have b: "bumpLanguage lc l = map (\<lambda>(k, n). (k, if k = l then n + 1 else n)) lc"
    proof -
      have "bumpLanguage lc l
          = map (\<lambda>(k, n). (k, if k = l then (if n \<noteq> 0 then n else 0) + 1 else n)) lc"
        using True Cons.prems(1) by (rule bumpLanguage_old)
      also have "\<dots> = map (\<lambda>(k, n). (k, if k = l then n + 1 else n)) lc"
        using Cons.prems(2) by (intro map_cong) auto
      finally show ?thesis .
    qed
    have keys: "map fst (bumpLanguage lc l) = map fst lc"
      unfolding b by (induction lc) auto
    then have keyset: "fst ` set (bumpLanguage lc l) = fst ` set lc"
      by (metis list.set_map)
    have d: "distinct (map fst (bumpLanguage lc l))" using keys Cons.prems(1) by simp
    have nz: "\<forall>n \<in> snd ` set (bumpLanguage lc l). 0 < n"
      using Cons.prems(2) unfolding b by (auto split: if_splits)
    have "foldl bumpLanguage (bumpLanguage lc l) ls =
        map (\<lambda>(k, n). (k, n + int (count_list ls k))) (bumpLanguage lc l)
        @ map (\<lambda>l. (l, int (count_list ls l)))
            (encounterOrder (filter (\<lambda>x. x \<notin> fst ` set (bumpLanguage lc l)) ls))"
      using d nz by (rule Cons.IH)
    also have "map (\<lambda>(k, n). (k, n + int (count_list ls k))) (bumpLanguage lc l)
        = map (\<lambda>(k, n). (k, n + int (count_list (l # ls) k))) lc"
      unfolding b by (induction lc) auto
    finally show ?thesis using True keyset by (auto simp: set_encounterOrder)
  next
    case False
    have b: "bumpLanguage lc l = lc @ [(l, 1)]" using False by (rule bumpLanguage_new)
    have d: "distinct (map fst (bumpLanguage lc l))"
      using False Cons.prems(1) unfolding b by (auto simp: image_iff)
    have nz: "\<forall>n \<in> snd ` set (bumpLanguage lc l). 0 < n"
      using Cons.prems(2) unfolding b by auto
    have f1: "filter (\<lambda>x. x \<notin> fst ` set (bumpLanguage lc l)) ls
        = filter (\<lambda>k. k \<noteq> l) (filter (\<lambda>x. x \<notin> fst ` set lc) ls)"
      unfolding b by (induction ls) auto
    have "foldl bumpLanguage (bumpLanguage lc l) ls =
        map (\<lambda>(k, n). (k, n + int (count_list ls k))) (bumpLanguage lc l)
        @ map (\<lambda>l. (l, int (count_list ls l)))
            (encounterOrder (filter (\<lambda>x. x \<notin> fst ` set (bumpLanguage lc l)) ls))"
      using d nz by (rule Cons.IH)
    also have "map (\<lambda>(k, n). (k, n + int (count_list ls k))) (bumpLanguage lc l)
        = map (\<lambda>(k, n). (k, n + int (count_list (l # ls) k))) lc
          @ [(l, int (count_list (l # ls) l))]"
    proof -
      have "map (\<lambda>(k, n). (k, n + int (count_list ls k))) lc
          = map (\<lambda>(k, n). (k, n + int (count_list (l # ls) k))) lc"
        using False by (intro map_cong) (auto simp: image_iff)
      then show ?thesis unfolding b by simp
    qed
    also have "map (\<lambda>l. (l, int (count_list ls l)))
            (encounterOrder (filter (\<lambda>x. x \<notin> fst ` set (bumpLanguage lc l)) ls))
        = map (\<lambda>x. (x, int (count_list (l # ls) x)))
            (filter (\<lambda>k. k \<noteq> l) (encounterOrder (filter (\<lambda>x. x \<notin> fst ` set lc) ls)))"
      unfolding f1 filter_encounterOrder by (intro map_cong) (auto simp: set_encounterOrder)
    finally show ?thesis using False by simp
  qed
qed

lemma countLanguages_spec:
  "countLanguages repos [] =
     map (\<lambda>l. (l, int (count_list (primaryLanguages repos) l)))
       (encounterOrder (primaryLanguages repos))"
  by (simp add: countLanguages_foldl foldl_bumpLanguage)

lemma foldl_sum_snd:
  "foldl (\<lambda>sum lang. sum + snd lang) (a :: int) xs = a + sum_list (map snd xs)"
  by (induction xs arbitrary: a) auto

lemma sum_list_pos_int:
  "xs \<noteq> [] \<Longrightarrow> \<forall>x \<in> set xs. (0 :: int) < x \<Longrightarrow> 0 < sum_list xs"
proof (induction xs)
  case Nil
  then show ?case by simp
next
  case (Cons x xs)
  show ?case
  proof (cases "xs = []")
    case True
    with Cons.prems show ?thesis by simp
  next
    case False
    with Cons have "0 < sum_list xs" by simp
    with Cons.prems show ?thesis by simp
  qed
qed

lemma countLanguages_positive:
  "\<forall>n \<in> snd ` set (countLanguages repos []). 0 < n"
  unfolding countLanguages_spec
  by (auto simp: set_encounterOrder count_list_0_iff simp flip: neq0_conv)

lemma primaryLanguages_filter:
  "primaryLanguages (filter hasLanguage repos) = primaryLanguages repos"
  by (simp add: primaryLanguages_def)

lemma member_le_sum_list_int:
  "\<forall>x \<in> set xs. (0 :: int) < x \<Longrightarrow> y \<in> set xs \<Longrightarrow> y \<le> sum_list xs"
proof (induction xs)
  case Nil
  then show ?case by simp
next
  case (Cons x xs)
  have nonneg: "0 \<le> sum_list xs" using Cons.prems(1) by (intro sum_list_nonneg) auto
  show ?case
  proof (cases "y = x")
    case True
    with nonneg show ?thesis by simp
  next
    case False
    with Cons have "y \<le> sum_list xs" by simp
    with Cons.prems(1) show ?thesis by simp
  qed
qed

lemma spec_top5_counts: "spec_top5 repos = take 5 (sort_key (\<lambda>(l, cnt). - cnt) (countLanguages repos []))"
  by (simp add: spec_top5_def Let_def countLanguages_spec)

lemma spec_top5_positive: "\<forall>n \<in> snd ` set (spec_top5 repos). 0 < n"
proof -
  have "set (spec_top5 repos) \<subseteq> set (countLanguages repos [])"
    unfolding spec_top5_counts
    using set_take_subset[of 5 "sort_key (\<lambda>(l, cnt). - cnt) (countLanguages repos [])"] by simp
  then show ?thesis using countLanguages_positive[of repos] by auto
qed

lemma fetchLanguageData_shares:
  "fetchLanguageData repos =
     map (\<lambda>(l, cnt).
            \<lparr> name = l,
              percentage = toFixed1 (toDouble (toDouble
                (of_int cnt / of_int (sum_list (map snd (spec_top5 repos)))) * 100)) \<rparr>)
       (spec_top5 repos)"
proof (cases "spec_top5 repos = []")
  case True
  then show ?thesis
    unfolding fetchLanguageData_def Let_def spec_top5_counts[symmetric] by simp
next
  case False
  have "\<forall>x \<in> set (map snd (spec_top5 repos)). 0 < x" using spec_top5_positive[of repos] by simp
  moreover have "map snd (spec_top5 repos) \<noteq> []" using False by simp
  ultimately have "0 < sum_list (map snd (spec_top5 repos))"
    by (rule sum_list_pos_int[rotated -1])
  with False show ?thesis
    unfolding fetchLanguageData_def Let_def spec_top5_counts[symmetric]
    by (simp add: foldl_sum_snd)
qed

section \<open>Properties of property reads\<close>

lemma getProp_nullish: "nullish v \<Longrightarrow> getProp v k = Inl TypeError"
  by (auto simp: nullish_def)

lemma getProp_present: "\<not> nullish v \<Longrightarrow> \<exists>w. getProp v k = Inr w"
  by (cases v) (auto simp: nullish_def)

lemma getProp_error: "getProp v k = Inl e \<Longrightarrow> e = TypeError"
  by (cases v) auto

section \<open>Results\<close>

subsection \<open>The streak calculator\<close>

text \<open>
  C3. For the empty day list \<open>calculateStreak\<close> returns \<open>{ current: 0, max: 0 }\<close>,
  whatever the clock.
\<close>

theorem calculateStreak_empty:
  "calculateStreak c [] = \<lparr> current = 0, max_streak = 0 \<rparr>"
  by (simp add: calculateStreak_def)

text \<open>
  C1. On a host west of UTC the code departs from the offset rule. The entries are dated
  14 and 15 January 2024, with counts 3 and 0, and it is noon of 15 January on a host five
  hours west of UTC: the whole-day offsets of the entries are 1 and 0, and the scan the
  specification describes gives a current streak of 1. \<open>calculateStreak\<close> returns
  \<open>current\<close> 0 there: the dates, read as midnight UTC, fall on the evening before in
  local time, \<open>setHours(0, 0, 0, 0)\<close> moves them to the start of that earlier day, and
  the loop sees offset 1 for today's entry and offset 2 for yesterday's, which is outside
  the grace period its comment grants to today and yesterday. On a host at UTC the same
  call returns 1.
\<close>

theorem current_streak_west_of_utc:
  "wholeDayOffset (- 18000000) 1705338000000 \<lparr>date = 1705190400000, contributionCount = 3\<rparr> = 1
   \<and> wholeDayOffset (- 18000000) 1705338000000 \<lparr>date = 1705276800000, contributionCount = 0\<rparr> = 0
   \<and> spec_current_scan [(0, 0), (1, 3)] 0 = 1
   \<and> calculateStreak (fixedOffsetClock (- 18000000) 1705338000000)
        [\<lparr>date = 1705190400000, contributionCount = 3\<rparr>,
         \<lparr>date = 1705276800000, contributionCount = 0\<rparr>] = \<lparr>current = 0, max_streak = 1\<rparr>
   \<and> calculateStreak (fixedOffsetClock 0 1705338000000)
        [\<lparr>date = 1705190400000, contributionCount = 3\<rparr>,
         \<lparr>date = 1705276800000, contributionCount = 0\<rparr>] = \<lparr>current = 1, max_streak = 1\<rparr>"
  by (simp add: wholeDayOffset_def calculateStreak_def daysDiff_def fixedOffsetClock_def
      msPerDay_def)



text \<open>
  C10. Both fields are non-negative. \<open>current\<close> is at most the number of positive-count
  entries plus the number of zero-count entries the scan passed over, and that sum is at
  most the length of the list; \<open>current\<close> and \<open>max\<close> are each at most the number of
  positive-count entries. A non-empty list whose counts are all zero gives
  \<open>{ current: 0, max: 0 }\<close>.
\<close>

theorem calculateStreak_bounds:
  "0 \<le> current (calculateStreak c days)
   \<and> 0 \<le> max_streak (calculateStreak c days)
   \<and> current (calculateStreak c days)
        \<le> int (length (filter (\<lambda>d. contributionCount d > 0) days)) + int (skippedZeros c days)
   \<and> length (filter (\<lambda>d. contributionCount d > 0) days) + skippedZeros c days \<le> length days
   \<and> current (calculateStreak c days) \<le> int (length (filter (\<lambda>d. contributionCount d > 0) days))
   \<and> max_streak (calculateStreak c days)
        \<le> int (length (filter (\<lambda>d. contributionCount d > 0) days))
   \<and> (days \<noteq> [] \<and> (\<forall>d \<in> set days. contributionCount d = 0) \<longrightarrow>
        calculateStreak c days = \<lparr>current = 0, max_streak = 0\<rparr>)"
proof -
  let ?P = "\<lambda>d. contributionCount d > 0"
  let ?s = "sort_key date days"
  let ?today = "startOfDay c (now c)"
  let ?pos = "length (filter ?P days)"
  have mx: "max_streak (calculateStreak c days) = fst (maxLoop ?s (0, 0))"
    by (cases "days = []") (simp_all add: calculateStreak_def Let_def)
  have cur: "current (calculateStreak c days) = currentLoop c ?today (rev ?s) 0"
    by (cases "days = []") (simp_all add: calculateStreak_def Let_def)
  have c0: "0 \<le> current (calculateStreak c days)"
    unfolding cur by (rule currentLoop_lower)
  have m0: "0 \<le> max_streak (calculateStreak c days)"
    unfolding mx by (rule maxLoop_lower)
  have "currentLoop c ?today (rev ?s) 0 \<le> 0 + int (length (filter ?P (rev ?s)))"
    by (rule currentLoop_upper)
  then have c1: "current (calculateStreak c days) \<le> int ?pos"
    unfolding cur by (simp add: count_positive_sorted)
  have "fst (maxLoop ?s (0, 0)) \<le> max 0 (0 + int (length (filter ?P ?s)))"
    by (rule maxLoop_upper) simp
  then have m1: "max_streak (calculateStreak c days) \<le> int ?pos"
    unfolding mx by (simp add: count_positive_sorted')
  have "skippedZeros c days \<le> length (filter (\<lambda>d. \<not> ?P d) (rev ?s))"
    unfolding skippedZeros_def by (rule skippedLoop_upper)
  then have "skippedZeros c days \<le> length (filter (\<lambda>d. \<not> ?P d) days)"
    by (simp add: count_positive_sorted)
  moreover have "?pos + length (filter (\<lambda>d. \<not> ?P d) days) = length days"
    by (rule sum_length_filter_compl)
  ultimately have s1: "?pos + skippedZeros c days \<le> length days" by simp
  have z: "calculateStreak c days = \<lparr>current = 0, max_streak = 0\<rparr>"
    if h: "days \<noteq> [] \<and> (\<forall>d \<in> set days. contributionCount d = 0)"
  proof -
    have "filter ?P days = []" using h by (simp add: filter_empty_conv)
    with c0 c1 m0 m1 have "current (calculateStreak c days) = 0"
      "max_streak (calculateStreak c days) = 0" by simp_all
    then show ?thesis by simp
  qed
  from c0 m0 c1 m1 s1 z show ?thesis by simp
qed

theorem calculateStreak_bounds_witness:
  "[\<lparr>date = 86400000, contributionCount = 0\<rparr>, \<lparr>date = 0, contributionCount = 0\<rparr>] \<noteq> []
   \<and> list_all (\<lambda>d. contributionCount d = 0)
         [\<lparr>date = 86400000, contributionCount = 0\<rparr>, \<lparr>date = 0, contributionCount = 0\<rparr>]
   \<and> calculateStreak (fixedOffsetClock 0 86400000)
        [\<lparr>date = 86400000, contributionCount = 0\<rparr>, \<lparr>date = 0, contributionCount = 0\<rparr>]
      = \<lparr>current = 0, max_streak = 0\<rparr>"
  using calculateStreak_bounds
    [of "fixedOffsetClock 0 86400000"
        "[\<lparr>date = 86400000, contributionCount = 0\<rparr>, \<lparr>date = 0, contributionCount = 0\<rparr>]"]
  by simp



text \<open>
  The condition is needed. With a positive count two days ago, none yesterday and a
  positive count today, the scan passes over yesterday's entry and counts both others; no
  streak of two is present, and the result is \<open>{ current: 2, max: 1 }\<close>.
\<close>

lemma counted_across_gap:
  "calculateStreak (fixedOffsetClock 0 172800000)
          [\<lparr>date = 0, contributionCount = 1\<rparr>,
           \<lparr>date = 86400000, contributionCount = 0\<rparr>,
           \<lparr>date = 172800000, contributionCount = 1\<rparr>] = \<lparr>current = 2, max_streak = 1\<rparr>"
  "\<not> streakPresent (fixedOffsetClock 0 172800000)
          [\<lparr>date = 0, contributionCount = 1\<rparr>,
           \<lparr>date = 86400000, contributionCount = 0\<rparr>,
           \<lparr>date = 172800000, contributionCount = 1\<rparr>]"
  by (simp_all add: calculateStreak_def streakPresent_def daysDiff_def fixedOffsetClock_def
      msPerDay_def)

text \<open>
  C7. \<open>calculateStreak\<close> leaves its input as it was: on a store in which the input array
  and its entries exist and the next address is unused, the call returns, the input array
  holds the same references afterwards, every day object and every array that existed
  before is unchanged, and the summary returned is the one computed from the entries. The
  only write is to the newly allocated copy.
\<close>

theorem calculateStreak_no_mutation:
  "arrays h a = Some refs \<and> set refs \<subseteq> dom (dayObjects h) \<and> nextAddr h \<notin> dom (arrays h)
   \<longrightarrow> (\<exists>s h'. calculateStreakH c h a = Inr (s, h')
          \<and> arrays h' a = Some refs
          \<and> dayObjects h' = dayObjects h
          \<and> (\<forall>b \<in> dom (arrays h). arrays h' b = arrays h b)
          \<and> s = calculateStreak c (map (\<lambda>r. the (dayObjects h r)) refs))"
proof
  assume h: "arrays h a = Some refs \<and> set refs \<subseteq> dom (dayObjects h)
      \<and> nextAddr h \<notin> dom (arrays h)"
  then have t: "those (map (dayObjects h) refs) = Some (map (\<lambda>r. the (dayObjects h r)) refs)"
    by (simp add: those_map_Some)
  have fresh: "nextAddr h \<noteq> a" using h by auto
  show "\<exists>s h'. calculateStreakH c h a = Inr (s, h')
          \<and> arrays h' a = Some refs
          \<and> dayObjects h' = dayObjects h
          \<and> (\<forall>b \<in> dom (arrays h). arrays h' b = arrays h b)
          \<and> s = calculateStreak c (map (\<lambda>r. the (dayObjects h r)) refs)"
  proof (cases "refs = []")
    case True
    with h show ?thesis by (simp add: calculateStreakH_def calculateStreak_def)
  next
    case False
    have "map (\<lambda>r. the (dayObjects h r)) (sort_key (\<lambda>r. date (the (dayObjects h r))) refs)
        = sort_key date (map (\<lambda>r. the (dayObjects h r)) refs)"
      by (rule sort_key_map)
    with False h fresh show ?thesis
      by (auto simp: calculateStreakH_def calculateStreak_def t Let_def)
  qed
qed

text \<open>An input array of two entries given newest first: the sorted copy is at address 3.\<close>

theorem calculateStreak_no_mutation_witness:
  "arrays \<lparr> arrays = [0 \<mapsto> [2, 1]],
       dayObjects = [1 \<mapsto> \<lparr>date = 0, contributionCount = 2\<rparr>,
                     2 \<mapsto> \<lparr>date = 86400000, contributionCount = 1\<rparr>],
       nextAddr = 3 \<rparr> 0 = Some [2, 1]
   \<and> calculateStreakH (fixedOffsetClock 0 86400000)
     \<lparr> arrays = [0 \<mapsto> [2, 1]],
       dayObjects = [1 \<mapsto> \<lparr>date = 0, contributionCount = 2\<rparr>,
                     2 \<mapsto> \<lparr>date = 86400000, contributionCount = 1\<rparr>],
       nextAddr = 3 \<rparr> 0
   = Inr (\<lparr>current = 2, max_streak = 2\<rparr>,
     \<lparr> arrays = [0 \<mapsto> [2, 1], 3 \<mapsto> [1, 2]],
       dayObjects = [1 \<mapsto> \<lparr>date = 0, contributionCount = 2\<rparr>,
                     2 \<mapsto> \<lparr>date = 86400000, contributionCount = 1\<rparr>],
       nextAddr = 4 \<rparr>)"
proof -
  let ?h = "\<lparr> arrays = [0 \<mapsto> [2, 1]],
       dayObjects = [1 \<mapsto> \<lparr>date = 0, contributionCount = 2\<rparr>,
                     2 \<mapsto> \<lparr>date = 86400000, contributionCount = 1\<rparr>],
       nextAddr = 3 \<rparr>"
  have pre: "arrays ?h 0 = Some [2, 1] \<and> set [2, 1] \<subseteq> dom (dayObjects ?h)
      \<and> nextAddr ?h \<notin> dom (arrays ?h)"
    by simp
  from calculateStreak_no_mutation[of ?h 0 "[2, 1]" "fixedOffsetClock 0 86400000"] pre
  obtain s h' where r: "calculateStreakH (fixedOffsetClock 0 86400000) ?h 0 = Inr (s, h')"
    and "arrays h' 0 = Some [2, 1]"
    by blast
  have "calculateStreakH (fixedOffsetClock 0 86400000) ?h 0
      = Inr (\<lparr>current = 2, max_streak = 2\<rparr>,
     \<lparr> arrays = [0 \<mapsto> [2, 1], 3 \<mapsto> [1, 2]],
       dayObjects = [1 \<mapsto> \<lparr>date = 0, contributionCount = 2\<rparr>,
                     2 \<mapsto> \<lparr>date = 86400000, contributionCount = 1\<rparr>],
       nextAddr = 4 \<rparr>)"
    by (simp add: calculateStreakH_def Let_def daysDiff_def fixedOffsetClock_def msPerDay_def)
  with r show ?thesis by simp
qed

subsection \<open>The language ranking\<close>

text \<open>
  C4, as stated, fails on its own example: with the counts Go 5, Python 3, JS 3, Rust 1,
  C 1, Zig 1 the kept counts sum to 13 and the shares 5/13, 3/13 and 1/13 print as 38.5,
  23.1 and 7.7, so the five percentages sum to 100.1, not to 100.0.
\<close>

theorem percentages_sum_counterexample:
  "countLanguages (map (\<lambda>l. \<lparr> language = l \<rparr>)
     [Some ''Go'', Some ''Python'', None, Some ''JS'', Some ''Go'', Some ''Rust'', Some ''C'',
      Some ''Zig'', Some ''Go'', Some ''Python'', Some [], Some ''JS'', Some ''Go'',
      Some ''Python'', Some ''JS'', Some ''Go'']) [] =
        [(''Go'', 5), (''Python'', 3), (''JS'', 3), (''Rust'', 1), (''C'', 1), (''Zig'', 1)]
   \<and> sum_list (map percentage (fetchLanguageData (map (\<lambda>l. \<lparr> language = l \<rparr>)
     [Some ''Go'', Some ''Python'', None, Some ''JS'', Some ''Go'', Some ''Rust'', Some ''C'',
      Some ''Zig'', Some ''Go'', Some ''Python'', Some [], Some ''JS'', Some ''Go'',
      Some ''Python'', Some ''JS'', Some ''Go'']))) \<noteq> 100"
  by (simp add: fetchLanguageData_def example_shares)

text \<open>
  C4, amended. For language names that are plain keys, \<open>fetchLanguageData\<close> lists the
  five languages the specification describes (groups by primary language in encounter
  order, counts, a stable sort by descending count, the first five), each with a
  percentage that is a multiple of 0.1 and lies within 0.05, plus the rounding error of
  the double arithmetic (less than \<open>10^-12\<close>), of its share of the sum of the kept counts
  in percent. Repositories without a primary language change nothing. Each share is
  rounded on its own, so the percentages need not sum to 100.0: for the counts of the
  example the list is Go 38.5, Python 23.1, JS 23.1, Rust 7.7, C 7.7, and the sum is 100.1.
\<close>

theorem fetchLanguageData_ranking:
  "list_all plainKey (primaryLanguages repos) \<longrightarrow>
     list_all2
       (\<lambda>share (l, cnt).
          name share = l
          \<and> (\<exists>n :: int. percentage share = of_int n / 10)
          \<and> \<bar>percentage share - 100 * of_int cnt / of_int (sum_list (map snd (spec_top5 repos)))\<bar>
              \<le> 1 / 20 + 1 / 10 ^ 12)
       (fetchLanguageData repos) (spec_top5 repos)
     \<and> fetchLanguageData (filter hasLanguage repos) = fetchLanguageData repos
     \<and> (countLanguages repos [] =
          [(''Go'', 5), (''Python'', 3), (''JS'', 3), (''Rust'', 1), (''C'', 1), (''Zig'', 1)]
        \<longrightarrow> fetchLanguageData repos =
              [\<lparr>name = ''Go'', percentage = 385 / 10\<rparr>,
               \<lparr>name = ''Python'', percentage = 231 / 10\<rparr>,
               \<lparr>name = ''JS'', percentage = 231 / 10\<rparr>,
               \<lparr>name = ''Rust'', percentage = 77 / 10\<rparr>,
               \<lparr>name = ''C'', percentage = 77 / 10\<rparr>]
            \<and> sum_list (map percentage (fetchLanguageData repos)) = 1001 / 10)"
proof (intro impI conjI)
  let ?top = "spec_top5 repos"
  let ?base = "sum_list (map snd ?top)"
  have each: "\<bar>toFixed1 (toDouble (toDouble (of_int cnt / of_int ?base) * 100))
        - 100 * of_int cnt / of_int ?base\<bar> \<le> 1 / 20 + 1 / 10 ^ 12"
    if "(l, cnt) \<in> set ?top" for l cnt
  proof -
    have pos: "0 < cnt" using that spec_top5_positive[of repos] by force
    have "\<forall>x \<in> set (map snd ?top). 0 < x" using spec_top5_positive[of repos] by simp
    moreover have "cnt \<in> set (map snd ?top)" using that by force
    ultimately have le: "cnt \<le> ?base" by (rule member_le_sum_list_int)
    have "0 < (of_int cnt / of_int ?base :: rat)" using pos le by simp
    moreover have "(of_int cnt / of_int ?base :: rat) \<le> 1" using pos le by simp
    ultimately have "\<bar>toFixed1 (toDouble (toDouble (of_int cnt / of_int ?base) * 100))
        - 100 * (of_int cnt / of_int ?base)\<bar> \<le> 1 / 20 + 1 / 10 ^ 12"
      by (rule percentage_error)
    then show ?thesis by simp
  qed
  show "list_all2
       (\<lambda>share (l, cnt).
          name share = l
          \<and> (\<exists>n :: int. percentage share = of_int n / 10)
          \<and> \<bar>percentage share - 100 * of_int cnt / of_int ?base\<bar> \<le> 1 / 20 + 1 / 10 ^ 12)
       (fetchLanguageData repos) ?top"
    unfolding fetchLanguageData_shares[of repos] list_all2_map1 list_all2_same
    using each toFixed1_tenths by auto
  show "fetchLanguageData (filter hasLanguage repos) = fetchLanguageData repos"
    by (simp add: fetchLanguageData_shares spec_top5_def primaryLanguages_filter)
next
  assume h: "countLanguages repos [] =
        [(''Go'', 5), (''Python'', 3), (''JS'', 3), (''Rust'', 1), (''C'', 1), (''Zig'', 1)]"
  have v: "toFixed1 (toDouble (toDouble (5 / 13) * 100)) = 385 / 10"
    "toFixed1 (toDouble (toDouble (3 / 13) * 100)) = 231 / 10"
    "toFixed1 (toDouble (toDouble (1 / 13) * 100)) = 77 / 10"
    by code_simp+
  show r: "fetchLanguageData repos =
            [\<lparr>name = ''Go'', percentage = 385 / 10\<rparr>,
             \<lparr>name = ''Python'', percentage = 231 / 10\<rparr>,
             \<lparr>name = ''JS'', percentage = 231 / 10\<rparr>,
             \<lparr>name = ''Rust'', percentage = 77 / 10\<rparr>,
             \<lparr>name = ''C'', percentage = 77 / 10\<rparr>]"
    by (simp add: fetchLanguageData_def h v)
  show "sum_list (map percentage (fetchLanguageData repos)) = 1001 / 10"
    unfolding r by simp
qed

theorem fetchLanguageData_ranking_witness:
  "list_all plainKey (primaryLanguages (map (\<lambda>l. \<lparr> language = l \<rparr>)
     [Some ''Go'', Some ''Python'', None, Some ''JS'', Some ''Go'', Some ''Rust'', Some ''C'',
      Some ''Zig'', Some ''Go'', Some ''Python'', Some [], Some ''JS'', Some ''Go'',
      Some ''Python'', Some ''JS'', Some ''Go'']))
   \<and> countLanguages (map (\<lambda>l. \<lparr> language = l \<rparr>)
     [Some ''Go'', Some ''Python'', None, Some ''JS'', Some ''Go'', Some ''Rust'', Some ''C'',
      Some ''Zig'', Some ''Go'', Some ''Python'', Some [], Some ''JS'', Some ''Go'',
      Some ''Python'', Some ''JS'', Some ''Go'']) [] =
        [(''Go'', 5), (''Python'', 3), (''JS'', 3), (''Rust'', 1), (''C'', 1), (''Zig'', 1)]
   \<and> spec_top5 (map (\<lambda>l. \<lparr> language = l \<rparr>)
     [Some ''Go'', Some ''Python'', None, Some ''JS'', Some ''Go'', Some ''Rust'', Some ''C'',
      Some ''Zig'', Some ''Go'', Some ''Python'', Some [], Some ''JS'', Some ''Go'',
      Some ''Python'', Some ''JS'', Some ''Go'']) = [(''Go'', 5), (''Python'', 3), (''JS'', 3), (''Rust'', 1), (''C'', 1)]
   \<and> map name (fetchLanguageData (map (\<lambda>l. \<lparr> language = l \<rparr>)
     [Some ''Go'', Some ''Python'', None, Some ''JS'', Some ''Go'', Some ''Rust'', Some ''C'',
      Some ''Zig'', Some ''Go'', Some ''Python'', Some [], Some ''JS'', Some ''Go'',
      Some ''Python'', Some ''JS'', Some ''Go''])) = [''Go'', ''Python'', ''JS'', ''Rust'', ''C'']
   \<and> sum_list (map percentage (fetchLanguageData (map (\<lambda>l. \<lparr> language = l \<rparr>)
     [Some ''Go'', Some ''Python'', None, Some ''JS'', Some ''Go'', Some ''Rust'', Some ''C'',
      Some ''Zig'', Some ''Go'', Some ''Python'', Some [], Some ''JS'', Some ''Go'',
      Some ''Python'', Some ''JS'', Some ''Go'']))) = 1001 / 10"
proof -
  have p: "list_all plainKey (primaryLanguages (map (\<lambda>l. \<lparr> language = l \<rparr>)
     [Some ''Go'', Some ''Python'', None, Some ''JS'', Some ''Go'', Some ''Rust'', Some ''C'',
      Some ''Zig'', Some ''Go'', Some ''Python'', Some [], Some ''JS'', Some ''Go'',
      Some ''Python'', Some ''JS'', Some ''Go'']))"
    by (simp add: primaryLanguages_def hasLanguage_def plainKey_def objectPrototypeMembers_def)
  have c: "countLanguages (map (\<lambda>l. \<lparr> language = l \<rparr>)
     [Some ''Go'', Some ''Python'', None, Some ''JS'', Some ''Go'', Some ''Rust'', Some ''C'',
      Some ''Zig'', Some ''Go'', Some ''Python'', Some [], Some ''JS'', Some ''Go'',
      Some ''Python'', Some ''JS'', Some ''Go'']) [] =
        [(''Go'', 5), (''Python'', 3), (''JS'', 3), (''Rust'', 1), (''C'', 1), (''Zig'', 1)]"
    by simp
  have t: "spec_top5 (map (\<lambda>l. \<lparr> language = l \<rparr>)
     [Some ''Go'', Some ''Python'', None, Some ''JS'', Some ''Go'', Some ''Rust'', Some ''C'',
      Some ''Zig'', Some ''Go'', Some ''Python'', Some [], Some ''JS'', Some ''Go'',
      Some ''Python'', Some ''JS'', Some ''Go'']) = [(''Go'', 5), (''Python'', 3), (''JS'', 3), (''Rust'', 1), (''C'', 1)]"
    by (simp add: spec_top5_counts c)
  from fetchLanguageData_ranking[of "(map (\<lambda>l. \<lparr> language = l \<rparr>)
     [Some ''Go'', Some ''Python'', None, Some ''JS'', Some ''Go'', Some ''Rust'', Some ''C'',
      Some ''Zig'', Some ''Go'', Some ''Python'', Some [], Some ''JS'', Some ''Go'',
      Some ''Python'', Some ''JS'', Some ''Go''])", rule_format, OF p]
  have "fetchLanguageData (map (\<lambda>l. \<lparr> language = l \<rparr>)
     [Some ''Go'', Some ''Python'', None, Some ''JS'', Some ''Go'', Some ''Rust'', Some ''C'',
      Some ''Zig'', Some ''Go'', Some ''Python'', Some [], Some ''JS'', Some ''Go'',
      Some ''Python'', Some ''JS'', Some ''Go'']) =
              [\<lparr>name = ''Go'', percentage = 385 / 10\<rparr>,
               \<lparr>name = ''Python'', percentage = 231 / 10\<rparr>,
               \<lparr>name = ''JS'', percentage = 231 / 10\<rparr>,
               \<lparr>name = ''Rust'', percentage = 77 / 10\<rparr>,
               \<lparr>name = ''C'', percentage = 77 / 10\<rparr>]"
    using c by blast
  with p c t show ?thesis by simp
qed

subsection \<open>The aggregator\<close>

text \<open>
  C9. The \<open>totalPRs\<close> of the contribution sub-result is the sum of the authored
  pull-request count and the pull-request review count of the upstream collection, and a
  summary built from that sub-result reports the same number.
\<close>

theorem totalPRs_sum:
  "\<exists>r s. fetchContributionData c (UserData contributions) = Inr r
      \<and> getProp r ''totalPRs'' =
          Inr (JNum (totalPullRequestContributions contributions
                     + totalPullRequestReviewContributions contributions))
      \<and> fetchGitHubStats u (JObj us) (JObj rs) r ls t = Inr s
      \<and> totalPRs s = JNum (totalPullRequestContributions contributions
                           + totalPullRequestReviewContributions contributions)"
  by (simp add: Let_def fetchGitHubStats_def bindE_def jsOr_def)

text \<open>
  C8. Two calls with the same user name and the same four sub-results, at different
  instants, either throw the same error or return summaries that agree on every field
  except \<open>fetchedAt\<close>.
\<close>

theorem summary_deterministic:
  "(\<exists>e. fetchGitHubStats u userStats repoStats contributionStats languageStats t1 = Inl e
       \<and> fetchGitHubStats u userStats repoStats contributionStats languageStats t2 = Inl e)
   \<or> (\<exists>s1 s2. fetchGitHubStats u userStats repoStats contributionStats languageStats t1 = Inr s1
       \<and> fetchGitHubStats u userStats repoStats contributionStats languageStats t2 = Inr s2
       \<and> s2 = s1\<lparr>fetchedAt := t2\<rparr>
       \<and> username s1 = username s2 \<and> followers s1 = followers s2
       \<and> following s1 = following s2 \<and> publicRepos s1 = publicRepos s2
       \<and> totalStars s1 = totalStars s2 \<and> totalForks s1 = totalForks s2
       \<and> totalIssues s1 = totalIssues s2 \<and> totalPRs s1 = totalPRs s2
       \<and> totalCommits s1 = totalCommits s2
       \<and> contributionStreak s1 = contributionStreak s2
       \<and> contributionDays s1 = contributionDays s2
       \<and> languages s1 = languages s2)"
  by (auto simp: fetchGitHubStats_def bindE_def split: sum.splits)

text \<open>
  C5, as stated, fails: when the contribution sub-result is \<open>undefined\<close>, reading
  \<open>contributionStats.totalIssues\<close> throws a \<open>TypeError\<close> and no summary is built.
\<close>

theorem absent_contribution_counterexample:
  "fetchGitHubStats ''octocat''
     (JObj [(''followers'', JNum 4), (''following'', JNum 2), (''public_repos'', JNum 8)])
     (JObj [(''totalStars'', JNum 15), (''totalForks'', JNum 3)])
     JUndefined
     (JArr [])
     ''2024-01-15T00:00:00.000Z'' = Inl TypeError"
  by (simp add: fetchGitHubStats_def bindE_def)

text \<open>
  C5, amended. When the three sub-results whose properties are read are present (neither
  \<open>undefined\<close> nor \<open>null\<close>) and each of the five properties of the contribution
  sub-result is missing or falsy, the call returns a summary whose \<open>totalIssues\<close>,
  \<open>totalPRs\<close> and \<open>totalCommits\<close> are 0, whose streak is \<open>{ current: 0, max: 0 }\<close> and
  whose day list is empty. When the contribution sub-result is \<open>undefined\<close> or \<open>null\<close> the
  call throws a \<open>TypeError\<close>.
\<close>

theorem contribution_defaults:
  "(\<not> nullish userStats \<and> \<not> nullish repoStats \<and> \<not> nullish contributionStats
     \<and> missingOrFalsy contributionStats ''totalIssues''
     \<and> missingOrFalsy contributionStats ''totalPRs''
     \<and> missingOrFalsy contributionStats ''totalCommits''
     \<and> missingOrFalsy contributionStats ''streak''
     \<and> missingOrFalsy contributionStats ''contributionDays''
     \<longrightarrow> (\<exists>s. fetchGitHubStats u userStats repoStats contributionStats languageStats t = Inr s
            \<and> totalIssues s = JNum 0 \<and> totalPRs s = JNum 0 \<and> totalCommits s = JNum 0
            \<and> contributionStreak s = JObj [(''current'', JNum 0), (''max'', JNum 0)]
            \<and> contributionDays s = JArr []))
   \<and> (nullish contributionStats
     \<longrightarrow> fetchGitHubStats u userStats repoStats contributionStats languageStats t
          = Inl TypeError)"
proof (intro conjI impI)
  assume h: "\<not> nullish userStats \<and> \<not> nullish repoStats \<and> \<not> nullish contributionStats
     \<and> missingOrFalsy contributionStats ''totalIssues''
     \<and> missingOrFalsy contributionStats ''totalPRs''
     \<and> missingOrFalsy contributionStats ''totalCommits''
     \<and> missingOrFalsy contributionStats ''streak''
     \<and> missingOrFalsy contributionStats ''contributionDays''"
  obtain v1 v2 v3 v4 v5 where u:
    "getProp userStats ''followers'' = Inr v1" "getProp userStats ''following'' = Inr v2"
    "getProp userStats ''public_repos'' = Inr v3" "getProp repoStats ''totalStars'' = Inr v4"
    "getProp repoStats ''totalForks'' = Inr v5"
    using h getProp_present by metis
  obtain v6 v7 v8 v9 v10 where cs:
    "getProp contributionStats ''totalIssues'' = Inr v6" "\<not> truthy v6"
    "getProp contributionStats ''totalPRs'' = Inr v7" "\<not> truthy v7"
    "getProp contributionStats ''totalCommits'' = Inr v8" "\<not> truthy v8"
    "getProp contributionStats ''streak'' = Inr v9" "\<not> truthy v9"
    "getProp contributionStats ''contributionDays'' = Inr v10" "\<not> truthy v10"
    using h by (auto simp: missingOrFalsy_def split: sum.splits)
  show "\<exists>s. fetchGitHubStats u userStats repoStats contributionStats languageStats t = Inr s
            \<and> totalIssues s = JNum 0 \<and> totalPRs s = JNum 0 \<and> totalCommits s = JNum 0
            \<and> contributionStreak s = JObj [(''current'', JNum 0), (''max'', JNum 0)]
            \<and> contributionDays s = JArr []"
    by (simp add: fetchGitHubStats_def bindE_def u cs jsOr_def)
next
  assume n: "nullish contributionStats"
  have e: "getProp contributionStats ''totalIssues'' = Inl TypeError"
    using n by (rule getProp_nullish)
  have step: "bindE (getProp x k) f = Inl TypeError" if "\<And>v. f v = Inl TypeError"
    for x k and f :: "jsval \<Rightarrow> js_error + StatsSummary"
    using that by (cases "getProp x k") (auto simp: bindE_def dest: getProp_error)
  show "fetchGitHubStats u userStats repoStats contributionStats languageStats t = Inl TypeError"
    unfolding fetchGitHubStats_def
    by (rule step, rule step, rule step, rule step, rule step, simp add: e bindE_def)
qed

theorem contribution_defaults_witness:
  "\<not> nullish (JObj [(''followers'', JNum 4)]) \<and> \<not> nullish (JObj []) \<and> \<not> nullish (JObj [])
   \<and> missingOrFalsy (JObj []) ''streak''
   \<and> fetchGitHubStats ''octocat'' (JObj [(''followers'', JNum 4)]) (JObj []) (JObj []) JUndefined
        ''2024-01-15T00:00:00.000Z''
      = Inr \<lparr> username = ''octocat'', followers = JNum 4, following = JNum 0,
              publicRepos = JNum 0, totalStars = JNum 0, totalForks = JNum 0,
              totalIssues = JNum 0, totalPRs = JNum 0, totalCommits = JNum 0,
              contributionStreak = JObj [(''current'', JNum 0), (''max'', JNum 0)],
              contributionDays = JArr [], languages = JArr [],
              fetchedAt = ''2024-01-15T00:00:00.000Z'' \<rparr>
   \<and> nullish JNull
   \<and> fetchGitHubStats ''octocat'' (JObj [(''followers'', JNum 4)]) (JObj []) JNull JUndefined
        ''2024-01-15T00:00:00.000Z'' = Inl TypeError"
proof -
  have a: "fetchGitHubStats ''octocat'' (JObj [(''followers'', JNum 4)]) (JObj []) (JObj [])
        JUndefined ''2024-01-15T00:00:00.000Z''
      = Inr \<lparr> username = ''octocat'', followers = JNum 4, following = JNum 0,
              publicRepos = JNum 0, totalStars = JNum 0, totalForks = JNum 0,
              totalIssues = JNum 0, totalPRs = JNum 0, totalCommits = JNum 0,
              contributionStreak = JObj [(''current'', JNum 0), (''max'', JNum 0)],
              contributionDays = JArr [], languages = JArr [],
              fetchedAt = ''2024-01-15T00:00:00.000Z'' \<rparr>"
    by (simp add: fetchGitHubStats_def bindE_def jsOr_def)
  have n: "nullish JNull" by (simp add: nullish_def)
  from contribution_defaults[THEN conjunct2, of JNull "''octocat''"
      "JObj [(''followers'', JNum 4)]" "JObj []" JUndefined "''2024-01-15T00:00:00.000Z''"] n
  have b: "fetchGitHubStats ''octocat'' (JObj [(''followers'', JNum 4)]) (JObj []) JNull
      JUndefined ''2024-01-15T00:00:00.000Z'' = Inl TypeError" by simp
  have m: "missingOrFalsy (JObj []) k" for k by (simp add: missingOrFalsy_def)
  have p: "\<not> nullish (JObj kvs)" for kvs by (simp add: nullish_def)
  from contribution_defaults[THEN conjunct1, of "JObj [(''followers'', JNum 4)]" "JObj []"
      "JObj []" "''octocat''" JUndefined "''2024-01-15T00:00:00.000Z''"] m p
  have "\<exists>s. fetchGitHubStats ''octocat'' (JObj [(''followers'', JNum 4)]) (JObj []) (JObj [])
        JUndefined ''2024-01-15T00:00:00.000Z'' = Inr s \<and> contributionDays s = JArr []"
    by auto
  with a b n m p show ?thesis by simp
qed

end
